theory Spec2Isabelle
  imports Complex_Main "HOL-Library.Sublist" "HOL-Library.Multiset"
begin

section \<open>JavaScript numbers and built-ins used by the podcast app\<close>

text \<open>
  The numbers the provider computes with are doubles. The state holds integers only
  (a page number, a page size, an array length), so a number is modelled as an exact
  rational or one of the three non-finite values a division by zero produces.
  Rounding of doubles is not modelled: all operands stay far below \<open>2 ^ 53\<close>, where the
  quotients, ceilings and products below are exact in the source as well.
\<close>

datatype jsnum = Fin rat | PosInf | NegInf | NaN

text \<open>\<^verbatim>\<open>a / b\<close> on two integer-valued numbers.\<close>

definition js_div :: "int \<Rightarrow> int \<Rightarrow> jsnum" where
  "js_div a b =
     (if b = 0 then (if a = 0 then NaN else if 0 < a then PosInf else NegInf)
      else Fin (rat_of_int a / rat_of_int b))"

fun Math_ceil :: "jsnum \<Rightarrow> jsnum" where
  "Math_ceil (Fin q) = Fin (rat_of_int \<lceil>q\<rceil>)"
| "Math_ceil PosInf = PosInf"
| "Math_ceil NegInf = NegInf"
| "Math_ceil NaN = NaN"

fun Math_max :: "jsnum \<Rightarrow> jsnum \<Rightarrow> jsnum" where
  "Math_max NaN _ = NaN"
| "Math_max _ NaN = NaN"
| "Math_max PosInf _ = PosInf"
| "Math_max _ PosInf = PosInf"
| "Math_max NegInf y = y"
| "Math_max x NegInf = x"
| "Math_max (Fin a) (Fin b) = Fin (max a b)"

fun Math_min :: "jsnum \<Rightarrow> jsnum \<Rightarrow> jsnum" where
  "Math_min NaN _ = NaN"
| "Math_min _ NaN = NaN"
| "Math_min NegInf _ = NegInf"
| "Math_min _ NegInf = NegInf"
| "Math_min PosInf y = y"
| "Math_min x PosInf = x"
| "Math_min (Fin a) (Fin b) = Fin (min a b)"

text \<open>\<^verbatim>\<open>x - 1\<close> and \<open>x * n\<close> for an integer \<open>n\<close>, as the slice bounds need them.\<close>

fun js_pred :: "jsnum \<Rightarrow> jsnum" where
  "js_pred (Fin a) = Fin (a - 1)"
| "js_pred PosInf = PosInf"
| "js_pred NegInf = NegInf"
| "js_pred NaN = NaN"

fun js_times :: "jsnum \<Rightarrow> int \<Rightarrow> jsnum" where
  "js_times (Fin a) n = Fin (a * rat_of_int n)"
| "js_times NaN n = NaN"
| "js_times PosInf n = (if n = 0 then NaN else if 0 < n then PosInf else NegInf)"
| "js_times NegInf n = (if n = 0 then NaN else if 0 < n then NegInf else PosInf)"

text \<open>
  \<^verbatim>\<open>Array.prototype.slice(start, end)\<close>: each bound is truncated towards zero (NaN
  counts as 0), a negative bound counts from the end of the array, and both are clipped
  to the array.
\<close>

definition trunc :: "rat \<Rightarrow> int" where
  "trunc q = (if q < 0 then \<lceil>q\<rceil> else \<lfloor>q\<rfloor>)"

fun slice_bound :: "nat \<Rightarrow> jsnum \<Rightarrow> nat" where
  "slice_bound len NaN = 0"
| "slice_bound len NegInf = 0"
| "slice_bound len PosInf = len"
| "slice_bound len (Fin q) =
     (if trunc q < 0 then nat (max (int len + trunc q) 0) else nat (min (trunc q) (int len)))"

definition js_slice :: "'a list \<Rightarrow> jsnum \<Rightarrow> jsnum \<Rightarrow> 'a list" where
  "js_slice xs a b =
     (let from = slice_bound (length xs) a; upto = slice_bound (length xs) b
      in take (upto - from) (drop from xs))"

text \<open>
  \<^verbatim>\<open>Array.prototype.sort(compare)\<close>. ECMAScript (2019 and later) requires the sort to be
  stable, and for a consistent comparator the result is then determined by the input;
  it is modelled by insertion from the right, which places an element before the first
  one it does not compare greater than.
\<close>

fun sort_insert :: "('a \<Rightarrow> 'a \<Rightarrow> int) \<Rightarrow> 'a \<Rightarrow> 'a list \<Rightarrow> 'a list" where
  "sort_insert cmp x [] = [x]"
| "sort_insert cmp x (y # ys) =
     (if cmp x y \<le> 0 then x # y # ys else y # sort_insert cmp x ys)"

fun js_sort :: "('a \<Rightarrow> 'a \<Rightarrow> int) \<Rightarrow> 'a list \<Rightarrow> 'a list" where
  "js_sort cmp [] = []"
| "js_sort cmp (x # xs) = sort_insert cmp x (js_sort cmp xs)"

subsection \<open>Strings\<close>

text \<open>
  A string of the app (a title, the search text) is its sequence of UTF-16 code units, each
  a number below 65536. \<open>js\<close> gives the string of an ASCII literal.
\<close>

type_synonym code_unit = nat

type_synonym jsstring = "code_unit list"

definition js :: "string \<Rightarrow> jsstring" where
  "js s = map of_char s"

text \<open>
  \<^verbatim>\<open>trim\<close> strips the white space and line terminators of ECMAScript from both ends:
  tab, line feed, vertical tab, form feed, carriage return, space, no-break space, the
  other space separators of Unicode, the line and paragraph separators and the byte
  order mark.
\<close>

definition is_space :: "code_unit \<Rightarrow> bool" where
  "is_space c =
     ((0x9 \<le> c \<and> c \<le> 0xD) \<or> c = 0x20 \<or> c = 0xA0 \<or> c = 0x1680
      \<or> (0x2000 \<le> c \<and> c \<le> 0x200A) \<or> c = 0x2028 \<or> c = 0x2029 \<or> c = 0x202F
      \<or> c = 0x205F \<or> c = 0x3000 \<or> c = 0xFEFF)"

definition trim :: "jsstring \<Rightarrow> jsstring" where
  "trim s = rev (dropWhile is_space (rev (dropWhile is_space s)))"

text \<open>A string is truthy when it is not empty.\<close>

definition truthy :: "jsstring \<Rightarrow> bool" where
  "truthy s = (s \<noteq> [])"

text \<open>\<^verbatim>\<open>t.includes(q)\<close>: \<open>q\<close> occurs in \<open>t\<close> at some position.\<close>

fun str_includes :: "jsstring \<Rightarrow> jsstring \<Rightarrow> bool" where
  "str_includes [] q = (q = [])"
| "str_includes (c # cs) q = (prefix q (c # cs) \<or> str_includes cs q)"

text \<open>
  Two built-ins depend on the host and its Unicode tables and are parameters of the
  model: the collation \<^verbatim>\<open>localeCompare\<close>, which returns a negative number, zero or a
  positive number, and \<^verbatim>\<open>toLowerCase\<close>.
\<close>

record host =
  localeCompare :: "jsstring \<Rightarrow> jsstring \<Rightarrow> int"
  toLowerCase :: "jsstring \<Rightarrow> jsstring"

text \<open>
  \<^verbatim>\<open>String(n)\<close> for an integer (of magnitude below \<open>10 ^ 21\<close>, where the source
  prints plain digits): its decimal digits, with a sign when negative.
\<close>

definition digit_char :: "nat \<Rightarrow> char" where
  "digit_char d = char_of (48 + d)"

function string_of_nat :: "nat \<Rightarrow> string" where
  "string_of_nat n =
     (if n < 10 then [digit_char n] else string_of_nat (n div 10) @ [digit_char (n mod 10)])"
  by pat_completeness auto
termination
  by (relation "measure (\<lambda>n. n)") auto

declare string_of_nat.simps [simp del]

definition String_of :: "int \<Rightarrow> string" where
  "String_of i = (if i < 0 then CHR ''-'' # string_of_nat (nat (- i)) else string_of_nat (nat i))"

section \<open>The podcast provider (PodcastContext)\<close>

text \<open>
  A podcast preview as the typedef of the provider lists it. \<open>updated\<close> is the time value
  of \<^verbatim>\<open>new Date(p.updated)\<close> (milliseconds since the epoch) of a valid date string.
\<close>

record podcast =
  podcast_id :: int
  title :: jsstring
  updated :: int
  genres :: "int list"

text \<open>The genre filter is the string \<^verbatim>\<open>"all"\<close> or a genre id, read with \<^verbatim>\<open>Number(genre)\<close>.\<close>

datatype genre_choice = All | GenreId int

record provider =
  allPodcasts :: "podcast list"
  loading :: bool
  error :: "string option"
  search :: jsstring
  sortKey :: string
  genre :: genre_choice
  page :: int
  pageSize :: int

text \<open>The \<^verbatim>\<open>useState\<close> initial values.\<close>

definition initial :: provider where
  "initial = \<lparr> allPodcasts = [], loading = True, error = None, search = [],
               sortKey = ''date-desc'', genre = All, page = 1, pageSize = 10 \<rparr>"

text \<open>\<^verbatim>\<open>calculatePageSize\<close>, with \<open>screenW\<close> the integer \<^verbatim>\<open>window.innerWidth\<close>.\<close>

definition calculatePageSize :: "int \<Rightarrow> int" where
  "calculatePageSize screenW =
     (if screenW \<le> 1024 then 10
      else (let cardWidth = 260; maxRows = 2;
                columns = \<lfloor>rat_of_int screenW / rat_of_int cardWidth\<rfloor>
            in columns * maxRows))"

text \<open>\<^verbatim>\<open>applyFilters\<close>, on the host \<open>h\<close>.\<close>

definition applyFilters :: "host \<Rightarrow> provider \<Rightarrow> podcast list" where
  "applyFilters h s =
     (let data = allPodcasts s;
          data = (if truthy (trim (search s))
                  then (let q = toLowerCase h (search s)
                        in filter (\<lambda>p. str_includes (toLowerCase h (title p)) q) data)
                  else data);
          data = (case genre s of
                    All \<Rightarrow> data
                  | GenreId g \<Rightarrow> filter (\<lambda>p. List.member (genres p) g) data)
      in if sortKey s = ''title-asc''
         then js_sort (\<lambda>a b. localeCompare h (title a) (title b)) data
         else if sortKey s = ''title-desc''
         then js_sort (\<lambda>a b. localeCompare h (title b) (title a)) data
         else if sortKey s = ''date-asc'' then js_sort (\<lambda>a b. updated a - updated b) data
         else if sortKey s = ''date-desc'' then js_sort (\<lambda>a b. updated b - updated a) data
         else data)"

text \<open>The part of the context the provider derives on every render.\<close>

record derived =
  currentPage :: jsnum
  totalPages :: jsnum
  podcasts :: "podcast list"
  allPodcastsCount :: nat

definition derive :: "host \<Rightarrow> provider \<Rightarrow> derived" where
  "derive h s =
     (let filtered = applyFilters h s;
          totalPages = Math_max (Fin 1) (Math_ceil (js_div (int (length filtered)) (pageSize s)));
          currentPage = Math_min (Fin (rat_of_int (page s))) totalPages;
          paged = js_slice filtered (js_times (js_pred currentPage) (pageSize s))
                    (js_times currentPage (pageSize s))
      in \<lparr> currentPage = currentPage, totalPages = totalPages, podcasts = paged,
           allPodcastsCount = length filtered \<rparr>)"

text \<open>
  What changes the state: the setters handed to consumers, the resize listener and the
  two ways the fetch started on mount can end.
\<close>

datatype event =
    SetSearch jsstring
  | SetSortKey string
  | SetGenre genre_choice
  | SetPage int
  | Resize int
  | Fetched "podcast list"
  | FetchFailed string

text \<open>
  Modelled from the spec: \<^verbatim>\<open>fetchPodcasts\<close> of \<^verbatim>\<open>api/fetchPata\<close> is not among the
  sources. A successful fetch stores the dataset through \<^verbatim>\<open>setAllPodcasts\<close> and
  clears the loading flag; a failed one stores an error value and clears the loading
  flag.
\<close>

definition fetchPodcasts_success :: "provider \<Rightarrow> podcast list \<Rightarrow> provider" where
  "fetchPodcasts_success s ps = s\<lparr>allPodcasts := ps, loading := False\<rparr>"

definition fetchPodcasts_failure :: "provider \<Rightarrow> string \<Rightarrow> provider" where
  "fetchPodcasts_failure s e = s\<lparr>error := Some e, loading := False\<rparr>"

fun update :: "provider \<Rightarrow> event \<Rightarrow> provider" where
  "update s (SetSearch t) = s\<lparr>search := t\<rparr>"
| "update s (SetSortKey k) = s\<lparr>sortKey := k\<rparr>"
| "update s (SetGenre g) = s\<lparr>genre := g\<rparr>"
| "update s (SetPage n) = s\<lparr>page := n\<rparr>"
| "update s (Resize w) = s\<lparr>pageSize := calculatePageSize w\<rparr>"
| "update s (Fetched ps) = fetchPodcasts_success s ps"
| "update s (FetchFailed e) = fetchPodcasts_failure s e"

text \<open>
  The effect with dependencies \<^verbatim>\<open>[search, sortKey, genre]\<close> runs after a render in
  which one of them differs from the previous render, and sets the page to 1.
\<close>

definition reset_effect :: "provider \<Rightarrow> provider \<Rightarrow> provider" where
  "reset_effect before after =
     (if (search after, sortKey after, genre after) = (search before, sortKey before, genre before)
      then after else after\<lparr>page := 1\<rparr>)"

definition step :: "provider \<Rightarrow> event \<Rightarrow> provider" where
  "step s e = reset_effect s (update s e)"

fun run :: "provider \<Rightarrow> event list \<Rightarrow> provider" where
  "run s [] = s"
| "run s (e # es) = run (step s e) es"

text \<open>Mounting runs the effects once: the page size is computed from the window.\<close>

definition mount :: "int \<Rightarrow> provider" where
  "mount w = initial\<lparr>pageSize := calculatePageSize w\<rparr>"

text \<open>The events that come from the user's controls, as opposed to the window and the fetch.\<close>

fun user_event :: "event \<Rightarrow> bool" where
  "user_event (SetSearch t) = True"
| "user_event (SetSortKey k) = True"
| "user_event (SetGenre g) = True"
| "user_event (SetPage n) = True"
| "user_event (Resize w) = False"
| "user_event (Fetched ps) = False"
| "user_event (FetchFailed e) = False"

subsection \<open>The host\<close>

text \<open>
  ECMAScript requires \<^verbatim>\<open>localeCompare\<close> to be a consistent comparator: swapping the
  arguments swaps the sign, and the order is transitive. It may return 0 for strings
  that differ.
\<close>

definition consistent_comparator :: "(jsstring \<Rightarrow> jsstring \<Rightarrow> int) \<Rightarrow> bool" where
  "consistent_comparator lc =
     ((\<forall>a b. (lc a b < 0) = (0 < lc b a)) \<and>
      (\<forall>a b c. lc a b \<le> 0 \<and> lc b c \<le> 0 \<longrightarrow> lc a c \<le> 0))"

text \<open>
  A host to run examples with. Its comparison follows the Unicode collation algorithm in
  the one respect the examples use: the control characters U+0000 to U+0008, U+000E to
  U+001F and U+007F are ignored, so that strings which differ only in them compare
  equal; apart from that, code units decide. Its lower-casing follows the Unicode case
  mappings for the letters of Basic Latin and Latin-1 and for the Greek capitals alpha
  to omega: each capital moves up by 32, and a capital sigma that ends a word (a cased
  letter before it, none after it) becomes the final sigma U+03C2.
\<close>

fun unit_compare :: "jsstring \<Rightarrow> jsstring \<Rightarrow> int" where
  "unit_compare [] [] = 0"
| "unit_compare [] (y # ys) = - 1"
| "unit_compare (x # xs) [] = 1"
| "unit_compare (x # xs) (y # ys) =
     (if x < y then - 1 else if y < x then 1 else unit_compare xs ys)"

definition ignorable :: "code_unit \<Rightarrow> bool" where
  "ignorable c = (c \<le> 0x8 \<or> (0xE \<le> c \<and> c \<le> 0x1F) \<or> c = 0x7F)"

definition example_compare :: "jsstring \<Rightarrow> jsstring \<Rightarrow> int" where
  "example_compare a b =
     unit_compare (filter (\<lambda>c. \<not> ignorable c) a) (filter (\<lambda>c. \<not> ignorable c) b)"

definition lower_unit :: "code_unit \<Rightarrow> code_unit" where
  "lower_unit c =
     (if (0x41 \<le> c \<and> c \<le> 0x5A) \<or> (0xC0 \<le> c \<and> c \<le> 0xDE \<and> c \<noteq> 0xD7)
         \<or> (0x391 \<le> c \<and> c \<le> 0x3A9 \<and> c \<noteq> 0x3A2)
      then c + 0x20 else c)"

definition cased :: "code_unit \<Rightarrow> bool" where
  "cased c =
     ((0x41 \<le> c \<and> c \<le> 0x5A) \<or> (0x61 \<le> c \<and> c \<le> 0x7A)
      \<or> c = 0xAA \<or> c = 0xB5 \<or> c = 0xBA
      \<or> (0xC0 \<le> c \<and> c \<le> 0xFF \<and> c \<noteq> 0xD7 \<and> c \<noteq> 0xF7)
      \<or> (0x391 \<le> c \<and> c \<le> 0x3A9 \<and> c \<noteq> 0x3A2) \<or> (0x3B1 \<le> c \<and> c \<le> 0x3C9))"

fun lower_after :: "bool \<Rightarrow> jsstring \<Rightarrow> jsstring" where
  "lower_after before [] = []"
| "lower_after before (c # cs) =
     (if c = 0x3A3 \<and> before \<and> \<not> (case cs of [] \<Rightarrow> False | d # ds \<Rightarrow> cased d)
      then 0x3C2 else lower_unit c) # lower_after (cased c) cs"

definition example_lower :: "jsstring \<Rightarrow> jsstring" where
  "example_lower s = lower_after False s"

definition example_host :: host where
  "example_host = \<lparr> localeCompare = example_compare, toLowerCase = example_lower \<rparr>"

section \<open>Genre tags (GenreTags)\<close>

text \<open>
  The genre table \<^verbatim>\<open>genres\<close> of \<^verbatim>\<open>data.js\<close> is not among the sources; it is the
  parameter \<open>genreMap\<close>, a list of entries with an id and a title.
\<close>

record genre_entry =
  genre_id :: int
  genre_title :: string

datatype js_error = TypeError

text \<open>\<^verbatim>\<open>xs.find(f)\<close> is \<^const>\<open>List.find\<close>; an entry found is an object, hence truthy.\<close>

definition genre_label :: "genre_entry list \<Rightarrow> int \<Rightarrow> string" where
  "genre_label genreMap i =
     (case List.find (\<lambda>g. genre_id g = i) genreMap of
        Some match \<Rightarrow> genre_title match
      | None \<Rightarrow> ''Unknown ('' @ String_of i @ '')'')"

text \<open>
  The component returns one tag per id. Its \<open>genres\<close> prop is \<^verbatim>\<open>undefined\<close> (\<open>None\<close>)
  when the detail page is opened without navigation state; \<^verbatim>\<open>genres.map\<close> then throws.
\<close>

definition GenreTags :: "genre_entry list \<Rightarrow> int list option \<Rightarrow> js_error + string list" where
  "GenreTags genreMap genres_prop =
     (case genres_prop of
        None \<Rightarrow> Inl TypeError
      | Some ids \<Rightarrow> Inr (map (genre_label genreMap) ids))"

section \<open>The show detail view (PodcastDetail)\<close>

record episode =
  episode_title :: string
  episode_description :: string

record season =
  season_title :: string
  season_description :: string
  season_image :: string
  episodes :: "episode list"

record show_detail =
  show_title :: string
  show_description :: string
  show_image :: string
  seasons :: "season list"

text \<open>\<^verbatim>\<open>xs[i]\<close> reads \<^verbatim>\<open>undefined\<close> (\<open>None\<close>) outside the array.\<close>

definition array_get :: "'a list \<Rightarrow> nat \<Rightarrow> 'a option" where
  "array_get xs i = (if i < length xs then Some (xs ! i) else None)"

text \<open>
  What a render of the component shows of the seasons and the genres. The header (cover,
  title, description and the date, formatted by a helper that is not among the sources)
  reads no season and is left out.
\<close>

record detail_view =
  total_seasons :: nat
  total_episodes :: nat
  genre_tags :: "string list"
  season_number :: nat
  season_heading :: string
  season_text :: string
  season_cover :: string
  season_episode_count :: nat
  dropdown :: "nat list"
  episode_cards :: "(nat \<times> string \<times> string) list"

text \<open>The values of the \<^verbatim>\<open>option\<close> elements: the positions of the seasons.\<close>

definition dropdown_options :: "show_detail \<Rightarrow> nat list" where
  "dropdown_options podcast = [0..<length (seasons podcast)]"

text \<open>
  One render with the stored index. The season is read with \<^verbatim>\<open>podcast.seasons[i]\<close>;
  reading \<^verbatim>\<open>season.image\<close> of \<^verbatim>\<open>undefined\<close> throws.
\<close>

definition PodcastDetail ::
  "genre_entry list \<Rightarrow> show_detail \<Rightarrow> int list option \<Rightarrow> nat \<Rightarrow> js_error + detail_view" where
  "PodcastDetail genreMap podcast genres_prop selectedSeasonIndex =
     (case array_get (seasons podcast) selectedSeasonIndex of
        None \<Rightarrow> Inl TypeError
      | Some season \<Rightarrow>
          (case GenreTags genreMap genres_prop of
             Inl e \<Rightarrow> Inl e
           | Inr tags \<Rightarrow>
               Inr \<lparr> total_seasons = length (seasons podcast),
                     total_episodes = foldl (\<lambda>acc s. acc + length (episodes s)) 0 (seasons podcast),
                     genre_tags = tags,
                     season_number = selectedSeasonIndex + 1,
                     season_heading = season_title season,
                     season_text = season_description season,
                     season_cover = season_image season,
                     season_episode_count = length (episodes season),
                     dropdown = dropdown_options podcast,
                     episode_cards =
                       map (\<lambda>(index, ep). (index + 1, episode_title ep, episode_description ep))
                         (enumerate 0 (episodes season)) \<rparr>))"

text \<open>
  \<^verbatim>\<open>useState(0)\<close>, and the \<^verbatim>\<open>onChange\<close> of the dropdown, which stores the number
  read from the value of the chosen option.
\<close>

definition initial_index :: nat where
  "initial_index = 0"

definition onChange :: "nat \<Rightarrow> nat \<Rightarrow> nat" where
  "onChange selectedSeasonIndex v = v"

fun selections :: "nat \<Rightarrow> nat list \<Rightarrow> nat" where
  "selections i [] = i"
| "selections i (v # vs) = selections (onChange i v) vs"

section \<open>Page size and page count\<close>

lemma calculatePageSize_div:
  "calculatePageSize w = (if w \<le> 1024 then 10 else (w div 260) * 2)"
  by (simp add: calculatePageSize_def floor_divide_of_int_eq)

text \<open>Every page size the resize listener can store is positive (at least 6).\<close>

lemma calculatePageSize_pos: "0 < calculatePageSize w"
proof (cases "w \<le> 1024")
  case True
  then show ?thesis by (simp add: calculatePageSize_div)
next
  case False
  then have "3 \<le> w div 260" by linarith
  with False show ?thesis by (simp add: calculatePageSize_div)
qed

text \<open>
  Claim C5. For every viewport width \<open>w\<close> the recomputed page size is 10 when
  \<open>w \<le> 1024\<close> and \<open>floor (w / 260) * 2\<close> otherwise; width 1024 gives 10, width 1025 gives
  6 and width 1560 gives 12.
\<close>

theorem calculatePageSize_spec:
  "calculatePageSize w = (if w \<le> 1024 then 10 else (w div 260) * 2)
   \<and> calculatePageSize 1024 = 10 \<and> calculatePageSize 1025 = 6 \<and> calculatePageSize 1560 = 12"
  by (simp add: calculatePageSize_div)

theorem calculatePageSize_spec_witness:
  "calculatePageSize 2000 = 14 \<and> calculatePageSize 800 = 10"
  using calculatePageSize_spec [of 2000] calculatePageSize_spec [of 800] by simp

lemma totalPages_Fin:
  assumes "0 < pageSize s"
  shows "totalPages (derive h s) =
         Fin (rat_of_int (max 1 \<lceil>rat_of_int (int (length (applyFilters h s))) / rat_of_int (pageSize s)\<rceil>))"
  using assms by (simp add: derive_def js_div_def Let_def max_def)

lemma count_derive: "allPodcastsCount (derive h s) = length (applyFilters h s)"
  by (simp add: derive_def Let_def)

lemma podcasts_empty: "applyFilters h s = [] \<Longrightarrow> podcasts (derive h s) = []"
  by (simp add: derive_def Let_def js_slice_def)

lemma ceiling_rat_real: "\<lceil>rat_of_int a / rat_of_int b\<rceil> = \<lceil>real_of_int a / real_of_int b\<rceil>"
  by (simp add: ceiling_divide_eq_div)

text \<open>The pages of the count are enough to hold \<open>n\<close> items.\<close>

lemma pages_cover:
  fixes n p :: int
  assumes "0 < p"
  shows "n \<le> max 1 \<lceil>rat_of_int n / rat_of_int p\<rceil> * p"
proof -
  let ?c = "\<lceil>rat_of_int n / rat_of_int p\<rceil>"
  have "rat_of_int n / rat_of_int p \<le> rat_of_int ?c" by (rule le_of_int_ceiling)
  moreover have "0 < rat_of_int p" using assms by simp
  ultimately have "rat_of_int n \<le> rat_of_int ?c * rat_of_int p"
    by (simp only: pos_divide_le_eq)
  then have "n \<le> ?c * p" by (metis of_int_le_iff of_int_mult)
  moreover have "?c * p \<le> max 1 ?c * p" using assms by (simp add: mult_right_mono)
  ultimately show ?thesis by linarith
qed

text \<open>
  Claim C3. For every filtered count and every positive page size, \<open>totalPages\<close> is
  \<open>max 1 (ceil (filteredCount / pageSize))\<close>; these pages hold all filtered items, and
  an empty filtered set gives exactly one page, which is empty.
\<close>

theorem totalPages_formula:
  assumes "0 < pageSize s"
  shows "totalPages (derive h s) =
           Fin (rat_of_int (max 1 \<lceil>real (allPodcastsCount (derive h s)) / real_of_int (pageSize s)\<rceil>))
         \<and> int (allPodcastsCount (derive h s))
             \<le> max 1 \<lceil>real (allPodcastsCount (derive h s)) / real_of_int (pageSize s)\<rceil> * pageSize s
         \<and> (allPodcastsCount (derive h s) = 0 \<longrightarrow>
              totalPages (derive h s) = Fin 1 \<and> podcasts (derive h s) = [])"
proof -
  let ?n = "length (applyFilters h s)"
  have c: "\<lceil>real ?n / real_of_int (pageSize s)\<rceil> = \<lceil>rat_of_int (int ?n) / rat_of_int (pageSize s)\<rceil>"
    using ceiling_rat_real [of "int ?n" "pageSize s"] by simp
  have 1: "totalPages (derive h s) = Fin (rat_of_int (max 1 \<lceil>real ?n / real_of_int (pageSize s)\<rceil>))"
    unfolding c using assms by (rule totalPages_Fin)
  have 2: "int ?n \<le> max 1 \<lceil>real ?n / real_of_int (pageSize s)\<rceil> * pageSize s"
    unfolding c using assms by (rule pages_cover)
  have 3: "totalPages (derive h s) = Fin 1 \<and> podcasts (derive h s) = []" if "?n = 0"
    using that 1 by (simp add: podcasts_empty)
  from 1 2 3 show ?thesis by (simp add: count_derive)
qed

theorem totalPages_formula_witness:
  "0 < pageSize (initial\<lparr>allPodcasts := replicate 25 \<lparr>podcast_id = 0, title = js ''x'', updated = 0, genres = []\<rparr>\<rparr>)
   \<and> totalPages (derive example_host
        (initial\<lparr>allPodcasts := replicate 25 \<lparr>podcast_id = 0, title = js ''x'', updated = 0, genres = []\<rparr>\<rparr>)) = Fin 3
   \<and> totalPages (derive example_host initial) = Fin 1
   \<and> podcasts (derive example_host initial) = []"
proof -
  let ?s = "initial\<lparr>allPodcasts := replicate 25 \<lparr>podcast_id = 0, title = js ''x'', updated = 0, genres = []\<rparr>\<rparr>"
  have h: "0 < pageSize ?s" and h0: "0 < pageSize initial" by (simp_all add: initial_def)
  have n: "allPodcastsCount (derive example_host ?s) = 25" by code_simp
  have n0: "allPodcastsCount (derive example_host initial) = 0" by code_simp
  have "\<lceil>(25::real) / 10\<rceil> = 3" by (simp add: ceiling_eq_iff)
  then have "totalPages (derive example_host ?s) = Fin 3"
    using totalPages_formula [OF h, of example_host] n by (simp add: initial_def)
  moreover have "totalPages (derive example_host initial) = Fin 1 \<and> podcasts (derive example_host initial) = []"
    using totalPages_formula [OF h0, of example_host] n0 by simp
  ultimately show ?thesis using h by simp
qed

section \<open>The requested page\<close>

lemma step_SetPage: "step s (SetPage n) = s\<lparr>page := n\<rparr>"
  by (simp add: step_def reset_effect_def)

lemma currentPage_Fin:
  assumes "totalPages (derive h s) = Fin t"
  shows "currentPage (derive h s) = Fin (min (rat_of_int (page s)) t)"
  using assms by (simp add: derive_def Let_def)

text \<open>
  Claim C1, as the code has it. \<^verbatim>\<open>setPage\<close> stores any requested page \<open>n\<close> unchanged,
  and for a positive page size the derived \<open>currentPage\<close> is \<open>min n totalPages\<close>: it never
  exceeds \<open>totalPages\<close>, and it lies in the interval from 1 to \<open>totalPages\<close> whenever
  \<open>n\<close> is at least 1. The derivation has no lower clamp.
\<close>

theorem currentPage_bounds:
  assumes "0 < pageSize s"
  shows "page (step s (SetPage n)) = n
         \<and> (\<exists>c t. currentPage (derive h (step s (SetPage n))) = Fin c
                \<and> totalPages (derive h (step s (SetPage n))) = Fin t
                \<and> c = min (rat_of_int n) t \<and> c \<le> t \<and> 1 \<le> t \<and> (1 \<le> n \<longrightarrow> 1 \<le> c))"
proof -
  let ?s = "step s (SetPage n)"
  have ps: "0 < pageSize ?s" using assms by (simp add: step_SetPage)
  define t where
    "t = rat_of_int (max 1 \<lceil>rat_of_int (int (length (applyFilters h ?s))) / rat_of_int (pageSize ?s)\<rceil>)"
  have tp: "totalPages (derive h ?s) = Fin t"
    unfolding t_def using ps by (rule totalPages_Fin)
  have t1: "1 \<le> t" unfolding t_def by simp
  have cp: "currentPage (derive h ?s) = Fin (min (rat_of_int n) t)"
    using currentPage_Fin [OF tp] by (simp add: step_SetPage)
  have "1 \<le> min (rat_of_int n) t" if "1 \<le> n" using that t1 by simp
  with tp cp t1 show ?thesis by (auto simp: step_SetPage)
qed

theorem currentPage_bounds_witness:
  "0 < pageSize (mount 1024)
   \<and> page (step (mount 1024) (SetPage 99)) = 99
   \<and> currentPage (derive example_host (step (mount 1024) (SetPage 99))) = Fin 1
   \<and> totalPages (derive example_host (step (mount 1024) (SetPage 99))) = Fin 1"
proof -
  have h: "0 < pageSize (mount 1024)" by (simp add: mount_def calculatePageSize_pos)
  have "totalPages (derive example_host (step (mount 1024) (SetPage 99))) = Fin 1" by code_simp
  with currentPage_bounds [OF h, of 99 example_host] h show ?thesis by auto
qed

text \<open>
  A requested page of 0 is not clamped: with the empty dataset and the page size of a
  narrow window, \<open>currentPage\<close> is 0 while \<open>totalPages\<close> is 1.
\<close>

theorem currentPage_page_zero:
  "currentPage (derive example_host (step (mount 1024) (SetPage 0))) = Fin 0
   \<and> totalPages (derive example_host (step (mount 1024) (SetPage 0))) = Fin 1"
  by code_simp

section \<open>Resetting the page\<close>

text \<open>
  Claim C4. In every state, changing the search text, the genre filter or the sort key
  sets the requested page to 1; a resize recomputes the page size from the width alone
  and leaves the requested page and the other query parameters as they are.
\<close>

theorem reset_rules:
  "(t \<noteq> search s \<longrightarrow> page (step s (SetSearch t)) = 1)
   \<and> (g \<noteq> genre s \<longrightarrow> page (step s (SetGenre g)) = 1)
   \<and> (k \<noteq> sortKey s \<longrightarrow> page (step s (SetSortKey k)) = 1)
   \<and> page (step s (Resize w)) = page s
   \<and> pageSize (step s (Resize w)) = calculatePageSize w
   \<and> search (step s (Resize w)) = search s
   \<and> sortKey (step s (Resize w)) = sortKey s
   \<and> genre (step s (Resize w)) = genre s"
  by (simp add: step_def reset_effect_def)

theorem reset_rules_witness:
  "js ''news'' \<noteq> search (initial\<lparr>page := 7\<rparr>)
   \<and> page (step (initial\<lparr>page := 7\<rparr>) (SetSearch (js ''news''))) = 1
   \<and> GenreId 3 \<noteq> genre (initial\<lparr>page := 7\<rparr>)
   \<and> page (step (initial\<lparr>page := 7\<rparr>) (SetGenre (GenreId 3))) = 1
   \<and> ''title-asc'' \<noteq> sortKey (initial\<lparr>page := 7\<rparr>)
   \<and> page (step (initial\<lparr>page := 7\<rparr>) (SetSortKey ''title-asc'')) = 1
   \<and> page (step (initial\<lparr>page := 7\<rparr>) (Resize 1560)) = 7
   \<and> pageSize (step (initial\<lparr>page := 7\<rparr>) (Resize 1560)) = 12"
  using reset_rules [of "js ''news''" "initial\<lparr>page := 7\<rparr>" "GenreId 3" "''title-asc''" 1560]
  by (simp add: initial_def calculatePageSize_div js_def)

section \<open>Sorting\<close>

lemma mset_sort_insert: "mset (sort_insert cmp x ys) = add_mset x (mset ys)"
  by (induction ys) simp_all

lemma mset_js_sort: "mset (js_sort cmp xs) = mset xs"
  by (induction xs) (simp_all add: mset_sort_insert)

lemma set_js_sort: "set (js_sort cmp xs) = set xs"
  using mset_js_sort [of cmp xs] by (metis set_mset_mset)

lemma sorted_sort_insert:
  assumes total: "\<And>a b. 0 < cmp a b \<Longrightarrow> cmp b a \<le> 0"
    and trans: "\<And>a b c. cmp a b \<le> 0 \<Longrightarrow> cmp b c \<le> 0 \<Longrightarrow> cmp a c \<le> 0"
    and "sorted_wrt (\<lambda>a b. cmp a b \<le> 0) ys"
  shows "sorted_wrt (\<lambda>a b. cmp a b \<le> 0) (sort_insert cmp x ys)"
  using assms(3)
proof (induction ys)
  case Nil
  then show ?case by simp
next
  case (Cons y ys)
  show ?case
  proof (cases "cmp x y \<le> 0")
    case True
    then have "\<forall>z\<in>set ys. cmp x z \<le> 0" using Cons.prems trans by auto
    with True Cons.prems show ?thesis by simp
  next
    case False
    then have yx: "cmp y x \<le> 0" using total by simp
    have "set (sort_insert cmp x ys) = insert x (set ys)"
      using mset_sort_insert [of cmp x ys] by (metis set_mset_add_mset_insert set_mset_mset)
    with False yx Cons show ?thesis by simp
  qed
qed

lemma sorted_js_sort:
  assumes total: "\<And>a b. 0 < cmp a b \<Longrightarrow> cmp b a \<le> 0"
    and trans: "\<And>a b c. cmp a b \<le> 0 \<Longrightarrow> cmp b c \<le> 0 \<Longrightarrow> cmp a c \<le> 0"
  shows "sorted_wrt (\<lambda>a b. cmp a b \<le> 0) (js_sort cmp xs)"
  by (induction xs) (simp_all add: sorted_sort_insert total trans)

lemma filter_sort_insert:
  assumes "\<And>y. P x \<Longrightarrow> P y \<Longrightarrow> cmp x y \<le> 0"
  shows "filter P (sort_insert cmp x ys) = filter P (x # ys)"
  using assms by (induction ys) auto

lemma filter_js_sort:
  assumes "\<And>a b. P a \<Longrightarrow> P b \<Longrightarrow> cmp a b \<le> 0"
  shows "filter P (js_sort cmp xs) = filter P xs"
  using assms by (induction xs) (simp_all add: filter_sort_insert)

lemma sorted_wrt_unique:
  assumes "\<And>a b. R a b \<Longrightarrow> \<not> R b a"
    and "sorted_wrt R xs" and "sorted_wrt R ys" and "set xs = set ys"
  shows "xs = ys"
  using assms(2-)
proof (induction xs arbitrary: ys)
  case Nil
  then show ?case by simp
next
  case (Cons x xs)
  then obtain y ys' where ys: "ys = y # ys'" by (cases ys) auto
  have irr: "\<not> R a a" for a using assms(1) by blast
  have x_notin: "x \<notin> set xs" using Cons.prems(1) irr by auto
  have y_notin: "y \<notin> set ys'" using Cons.prems(2) irr ys by auto
  have "x = y"
  proof (rule ccontr)
    assume ne: "x \<noteq> y"
    with Cons.prems(3) ys have "x \<in> set ys'" and "y \<in> set xs" by auto
    then have "R y x" and "R x y" using Cons.prems(1,2) ys by auto
    then show False using assms(1) by blast
  qed
  moreover have "set xs = set ys'"
    using Cons.prems(3) ys x_notin y_notin \<open>x = y\<close> by auto
  ultimately show ?case using Cons.IH [of ys'] Cons.prems(1,2) ys by simp
qed

lemma sorted_wrt_strict:
  assumes "sorted_wrt P xs" and "distinct (map f xs)"
  shows "sorted_wrt (\<lambda>a b. P a b \<and> f a \<noteq> f b) xs"
  using assms by (induction xs) auto

lemma applyFilters_default_idem:
  "applyFilters h (s\<lparr>sortKey := ''default''\<rparr>) =
     (let data = allPodcasts s;
          data = (if truthy (trim (search s))
                  then filter (\<lambda>p. str_includes (toLowerCase h (title p)) (toLowerCase h (search s))) data
                  else data)
      in case genre s of All \<Rightarrow> data | GenreId g \<Rightarrow> filter (\<lambda>p. List.member (genres p) g) data)"
  by (simp add: applyFilters_def Let_def split: genre_choice.splits)

lemma applyFilters_date_desc:
  assumes "sortKey s = ''date-desc''"
  shows "applyFilters h s =
         js_sort (\<lambda>a b. updated b - updated a) (applyFilters h (s\<lparr>sortKey := ''default''\<rparr>))"
  using assms by (simp add: applyFilters_def Let_def split: genre_choice.splits)

lemma applyFilters_title_asc:
  "applyFilters h (s\<lparr>sortKey := ''title-asc''\<rparr>) =
         js_sort (\<lambda>a b. localeCompare h (title a) (title b))
           (applyFilters h (s\<lparr>sortKey := ''default''\<rparr>))"
  by (simp add: applyFilters_def Let_def split: genre_choice.splits)

lemma applyFilters_title_desc:
  "applyFilters h (s\<lparr>sortKey := ''title-desc''\<rparr>) =
         js_sort (\<lambda>a b. localeCompare h (title b) (title a))
           (applyFilters h (s\<lparr>sortKey := ''default''\<rparr>))"
  by (simp add: applyFilters_def Let_def split: genre_choice.splits)

lemma sorted_date_desc:
  "sorted_wrt (\<lambda>a b. updated b \<le> updated a) (js_sort (\<lambda>a b. updated b - updated a) xs)"
proof -
  have "sorted_wrt (\<lambda>a b. updated b - updated a \<le> 0) (js_sort (\<lambda>a b. updated b - updated a) xs)"
    by (rule sorted_js_sort) simp_all
  then show ?thesis by simp
qed

text \<open>
  Claim C7. With the sort key \<open>date-desc\<close> the result is ordered by timestamp, newest
  first; it is a rearrangement of the filtered list, and the sort is stable: the shows
  of any one timestamp keep the order they had before the sort.
\<close>

theorem date_desc_stable:
  assumes "sortKey s = ''date-desc''"
  shows "sorted_wrt (\<lambda>a b. updated b \<le> updated a) (applyFilters h s)
         \<and> mset (applyFilters h s) = mset (applyFilters h (s\<lparr>sortKey := ''default''\<rparr>))
         \<and> (\<forall>t. filter (\<lambda>p. updated p = t) (applyFilters h s)
                = filter (\<lambda>p. updated p = t) (applyFilters h (s\<lparr>sortKey := ''default''\<rparr>)))"
proof -
  let ?pre = "applyFilters h (s\<lparr>sortKey := ''default''\<rparr>)"
  have eq: "applyFilters h s = js_sort (\<lambda>a b. updated b - updated a) ?pre"
    using assms by (rule applyFilters_date_desc)
  have "filter (\<lambda>p. updated p = t) (js_sort (\<lambda>a b. updated b - updated a) ?pre)
        = filter (\<lambda>p. updated p = t) ?pre" for t
    by (rule filter_js_sort) simp
  then show ?thesis
    unfolding eq by (simp add: sorted_date_desc mset_js_sort)
qed


theorem date_desc_stable_witness:
  "sortKey (initial\<lparr>allPodcasts :=
       [\<lparr>podcast_id = 1, title = js ''a'', updated = 10, genres = []\<rparr>,
        \<lparr>podcast_id = 2, title = js ''b'', updated = 10, genres = []\<rparr>,
        \<lparr>podcast_id = 3, title = js ''c'', updated = 50, genres = []\<rparr>]\<rparr>) = ''date-desc''
   \<and> map podcast_id (applyFilters example_host (initial\<lparr>allPodcasts :=
       [\<lparr>podcast_id = 1, title = js ''a'', updated = 10, genres = []\<rparr>,
        \<lparr>podcast_id = 2, title = js ''b'', updated = 10, genres = []\<rparr>,
        \<lparr>podcast_id = 3, title = js ''c'', updated = 50, genres = []\<rparr>]\<rparr>)) = [3, 1, 2]
   \<and> sorted_wrt (\<lambda>a b. updated b \<le> updated a) (applyFilters example_host (initial\<lparr>allPodcasts :=
       [\<lparr>podcast_id = 1, title = js ''a'', updated = 10, genres = []\<rparr>,
        \<lparr>podcast_id = 2, title = js ''b'', updated = 10, genres = []\<rparr>,
        \<lparr>podcast_id = 3, title = js ''c'', updated = 50, genres = []\<rparr>]\<rparr>))"
proof -
  let ?s = "initial\<lparr>allPodcasts :=
       [\<lparr>podcast_id = 1, title = js ''a'', updated = 10, genres = []\<rparr>,
        \<lparr>podcast_id = 2, title = js ''b'', updated = 10, genres = []\<rparr>,
        \<lparr>podcast_id = 3, title = js ''c'', updated = 50, genres = []\<rparr>]\<rparr>"
  have h: "sortKey ?s = ''date-desc''" by (simp add: initial_def)
  have e: "map podcast_id (applyFilters example_host ?s) = [3, 1, 2]" by code_simp
  have "sorted_wrt (\<lambda>a b. updated b \<le> updated a) (applyFilters example_host ?s)"
    using date_desc_stable [OF h, of example_host] by (rule conjunct1)
  with h e show ?thesis by blast
qed


subsection \<open>The comparison of the example host is consistent\<close>

lemma unit_compare_flip: "(unit_compare a b < 0) = (0 < unit_compare b a)"
proof (induction a b rule: unit_compare.induct)
  case (4 x xs y ys)
  then show ?case by (cases "x < y"; cases "y < x") simp_all
qed simp_all

lemma unit_compare_Cons_le:
  "(unit_compare (x # xs) (y # ys) \<le> 0) = (x < y \<or> (x = y \<and> unit_compare xs ys \<le> 0))"
  by (cases "x < y"; cases "y < x") auto

lemma unit_compare_trans:
  "unit_compare a b \<le> 0 \<Longrightarrow> unit_compare b c \<le> 0 \<Longrightarrow> unit_compare a c \<le> 0"
proof (induction a b arbitrary: c rule: unit_compare.induct)
  case 1
  then show ?case by simp
next
  case (2 y ys)
  then show ?case by (cases c) simp_all
next
  case (3 x xs)
  then show ?case by simp
next
  case (4 x xs y ys)
  show ?case
  proof (cases c)
    case Nil
    with 4 show ?thesis by simp
  next
    case (Cons z zs)
    from "4.prems"(1) have xy: "x < y \<or> (x = y \<and> unit_compare xs ys \<le> 0)"
      by (simp only: unit_compare_Cons_le)
    from "4.prems"(2) Cons have yz: "y < z \<or> (y = z \<and> unit_compare ys zs \<le> 0)"
      by (simp only: unit_compare_Cons_le)
    have "x < z \<or> (x = z \<and> unit_compare xs zs \<le> 0)"
    proof (cases "x = y \<and> y = z")
      case True
      with xy yz have "unit_compare xs ys \<le> 0" and "unit_compare ys zs \<le> 0" by simp_all
      moreover from True have "\<not> x < y" and "\<not> y < x" by simp_all
      ultimately have "unit_compare xs zs \<le> 0" using "4.IH" by blast
      with True show ?thesis by simp
    next
      case False
      with xy yz show ?thesis by linarith
    qed
    then show ?thesis unfolding Cons by (simp only: unit_compare_Cons_le)
  qed
qed

lemma consistent_example_host: "consistent_comparator (localeCompare example_host)"
proof -
  have "(example_compare a b < 0) = (0 < example_compare b a)" for a b
    unfolding example_compare_def by (rule unit_compare_flip)
  moreover have "example_compare a c \<le> 0"
    if "example_compare a b \<le> 0" and "example_compare b c \<le> 0" for a b c
    using that unfolding example_compare_def by (rule unit_compare_trans)
  ultimately show ?thesis
    unfolding consistent_comparator_def example_host_def by auto
qed

subsection \<open>Title order\<close>

lemma pre_sort_sublist:
  "\<exists>P. applyFilters h (s\<lparr>sortKey := ''default''\<rparr>) = filter P (allPodcasts s)"
proof (cases "genre s")
  case All
  then show ?thesis
    by (cases "truthy (trim (search s))")
      (auto simp: applyFilters_default_idem Let_def intro: exI [of _ "\<lambda>p. True"])
next
  case (GenreId g)
  then show ?thesis
    by (cases "truthy (trim (search s))")
      (auto simp: applyFilters_default_idem Let_def)
qed

lemma sorted_wrt_filter: "sorted_wrt R xs \<Longrightarrow> sorted_wrt R (filter P xs)"
  by (induction xs) auto

lemma sorted_wrt_pairs:
  assumes "sorted_wrt R xs" and "a \<in> set xs" and "b \<in> set xs" and "a \<noteq> b"
  shows "R a b \<or> R b a"
  using assms by (induction xs) auto

text \<open>
  Sorting with a consistent comparator and with its converse gives reversed results
  when no two elements of the list compare equal.
\<close>

lemma js_sort_flip:
  fixes key :: "'a \<Rightarrow> jsstring"
  assumes "consistent_comparator lc"
    and apart: "sorted_wrt (\<lambda>a b. lc (key a) (key b) \<noteq> 0) xs"
  shows "js_sort (\<lambda>a b. lc (key b) (key a)) xs = rev (js_sort (\<lambda>a b. lc (key a) (key b)) xs)"
proof -
  let ?asc = "\<lambda>a b. lc (key a) (key b)" and ?desc = "\<lambda>a b. lc (key b) (key a)"
  let ?R = "\<lambda>a b. lc (key a) (key b) < 0"
  from assms(1) have flip: "\<And>a b. (lc a b < 0) = (0 < lc b a)"
    and trans: "\<And>a b c. lc a b \<le> 0 \<Longrightarrow> lc b c \<le> 0 \<Longrightarrow> lc a c \<le> 0"
    unfolding consistent_comparator_def by blast+
  have total: "lc b a \<le> 0" if "0 < lc a b" for a b
    using that flip [of b a] by simp
  have refl: "lc a a = 0" for a
    using flip [of a a] by linarith
  have apart_sym: "lc b a \<noteq> 0" if "lc a b \<noteq> 0" for a b
    using that flip [of a b] flip [of b a] by linarith
  have asym: "\<not> ?R b a" if "?R a b" for a b
    using that flip [of "key a" "key b"] by linarith
  have dist: "distinct xs"
    using apart by (induction xs) (auto simp: refl)
  have ne: "lc (key a) (key b) \<noteq> 0" if "a \<in> set xs" and "b \<in> set xs" and "a \<noteq> b" for a b
    using sorted_wrt_pairs [OF apart that] apart_sym by blast
  have strict: "sorted_wrt ?R ys"
    if srt: "sorted_wrt (\<lambda>a b. lc (key a) (key b) \<le> 0) ys" and m: "mset ys = mset xs" for ys
  proof -
    have d: "distinct (map (\<lambda>x. x) ys)"
      using dist mset_eq_imp_distinct_iff [OF m] by simp
    have st: "sorted_wrt (\<lambda>a b. lc (key a) (key b) \<le> 0 \<and> a \<noteq> b) ys"
      using sorted_wrt_strict [OF srt d] by simp
    have se: "set ys = set xs" using m by (rule mset_eq_setD)
    show ?thesis
    proof (rule sorted_wrt_mono_rel [OF _ st])
      fix x y
      assume "x \<in> set ys" and "y \<in> set ys" and le: "lc (key x) (key y) \<le> 0 \<and> x \<noteq> y"
      then have "lc (key x) (key y) \<noteq> 0" using ne se by blast
      with le show "lc (key x) (key y) < 0" by linarith
    qed
  qed
  have s_asc: "sorted_wrt (\<lambda>a b. ?asc a b \<le> 0) (js_sort ?asc xs)"
    by (rule sorted_js_sort) (auto intro: total trans)
  have s_desc: "sorted_wrt (\<lambda>a b. ?desc a b \<le> 0) (js_sort ?desc xs)"
    by (rule sorted_js_sort) (auto intro: total trans)
  have 1: "sorted_wrt ?R (js_sort ?asc xs)"
    using s_asc by (rule strict) (rule mset_js_sort)
  have "sorted_wrt (\<lambda>a b. lc (key a) (key b) \<le> 0) (rev (js_sort ?desc xs))"
    using s_desc by (simp add: sorted_wrt_rev)
  then have 2: "sorted_wrt ?R (rev (js_sort ?desc xs))"
    by (rule strict) (simp add: mset_js_sort)
  have "rev (js_sort ?desc xs) = js_sort ?asc xs"
  proof (rule sorted_wrt_unique [where R = ?R])
    show "\<not> ?R b a" if "?R a b" for a b using that by (rule asym)
    show "sorted_wrt ?R (rev (js_sort ?desc xs))" by (rule 2)
    show "sorted_wrt ?R (js_sort ?asc xs)" by (rule 1)
    show "set (rev (js_sort ?desc xs)) = set (js_sort ?asc xs)"
      unfolding set_rev set_js_sort ..
  qed
  then show ?thesis by (metis rev_rev_ident)
qed

text \<open>
  Claim C8, as the code has it. When no two shows of the dataset have titles that
  \<^verbatim>\<open>localeCompare\<close> reports as equal (it never returns 0 for two of them), the result
  for \<open>title-desc\<close> is the result for \<open>title-asc\<close> reversed; \<^verbatim>\<open>localeCompare\<close> is a
  consistent comparator, as ECMAScript requires.
\<close>

theorem title_sorts_reversed:
  assumes "consistent_comparator (localeCompare h)"
    and "sorted_wrt (\<lambda>a b. localeCompare h (title a) (title b) \<noteq> 0) (allPodcasts s)"
  shows "applyFilters h (s\<lparr>sortKey := ''title-desc''\<rparr>)
         = rev (applyFilters h (s\<lparr>sortKey := ''title-asc''\<rparr>))"
proof -
  obtain P where "applyFilters h (s\<lparr>sortKey := ''default''\<rparr>) = filter P (allPodcasts s)"
    using pre_sort_sublist by blast
  then have "sorted_wrt (\<lambda>a b. localeCompare h (title a) (title b) \<noteq> 0)
               (applyFilters h (s\<lparr>sortKey := ''default''\<rparr>))"
    using assms(2) by (simp add: sorted_wrt_filter)
  with assms(1) show ?thesis
    unfolding applyFilters_title_asc applyFilters_title_desc by (rule js_sort_flip)
qed

theorem title_sorts_reversed_witness:
  "consistent_comparator (localeCompare example_host)
   \<and> sorted_wrt (\<lambda>a b. localeCompare example_host (title a) (title b) \<noteq> 0)
       (allPodcasts (initial\<lparr>allPodcasts :=
         [\<lparr>podcast_id = 1, title = js ''beta'', updated = 10, genres = []\<rparr>,
          \<lparr>podcast_id = 2, title = js ''alpha'', updated = 10, genres = []\<rparr>,
          \<lparr>podcast_id = 3, title = js ''gamma'', updated = 50, genres = []\<rparr>]\<rparr>))
   \<and> map podcast_id (applyFilters example_host (initial\<lparr>allPodcasts :=
       [\<lparr>podcast_id = 1, title = js ''beta'', updated = 10, genres = []\<rparr>,
        \<lparr>podcast_id = 2, title = js ''alpha'', updated = 10, genres = []\<rparr>,
        \<lparr>podcast_id = 3, title = js ''gamma'', updated = 50, genres = []\<rparr>],
        sortKey := ''title-asc''\<rparr>)) = [2, 1, 3]
   \<and> map podcast_id (applyFilters example_host (initial\<lparr>allPodcasts :=
       [\<lparr>podcast_id = 1, title = js ''beta'', updated = 10, genres = []\<rparr>,
        \<lparr>podcast_id = 2, title = js ''alpha'', updated = 10, genres = []\<rparr>,
        \<lparr>podcast_id = 3, title = js ''gamma'', updated = 50, genres = []\<rparr>],
        sortKey := ''title-desc''\<rparr>)) = [3, 1, 2]"
proof -
  let ?s = "initial\<lparr>allPodcasts :=
       [\<lparr>podcast_id = 1, title = js ''beta'', updated = 10, genres = []\<rparr>,
        \<lparr>podcast_id = 2, title = js ''alpha'', updated = 10, genres = []\<rparr>,
        \<lparr>podcast_id = 3, title = js ''gamma'', updated = 50, genres = []\<rparr>]\<rparr>"
  have d: "sorted_wrt (\<lambda>a b. localeCompare example_host (title a) (title b) \<noteq> 0) (allPodcasts ?s)"
    by (simp add: example_host_def example_compare_def ignorable_def js_def)
  have a: "map podcast_id (applyFilters example_host (?s\<lparr>sortKey := ''title-asc''\<rparr>)) = [2, 1, 3]"
    by (simp add: applyFilters_def initial_def trim_def truthy_def example_host_def
        example_compare_def ignorable_def js_def)
  have "map podcast_id (applyFilters example_host (?s\<lparr>sortKey := ''title-desc''\<rparr>))
        = rev (map podcast_id (applyFilters example_host (?s\<lparr>sortKey := ''title-asc''\<rparr>)))"
    unfolding title_sorts_reversed [OF consistent_example_host d] by (simp only: rev_map)
  with a have "map podcast_id (applyFilters example_host (?s\<lparr>sortKey := ''title-desc''\<rparr>)) = [3, 1, 2]"
    by simp
  with consistent_example_host d a show ?thesis by blast
qed

text \<open>
  Distinct titles are not enough. The titles \<open>a\<close> followed by the control character
  U+0001 and plain \<open>a\<close> differ, yet the collation reports them as equal: the stable sort
  leaves the two shows in dataset order for both sort keys, so the two results are the
  same and not the reverse of each other.
\<close>

theorem title_sorts_equal_titles:
  "distinct (map title
      [\<lparr>podcast_id = 1, title = [0x61, 0x1], updated = 10, genres = []\<rparr>,
       \<lparr>podcast_id = 2, title = [0x61], updated = 10, genres = []\<rparr>])
   \<and> map podcast_id (applyFilters example_host (initial\<lparr>allPodcasts :=
       [\<lparr>podcast_id = 1, title = [0x61, 0x1], updated = 10, genres = []\<rparr>,
        \<lparr>podcast_id = 2, title = [0x61], updated = 10, genres = []\<rparr>],
        sortKey := ''title-asc''\<rparr>)) = [1, 2]
   \<and> map podcast_id (applyFilters example_host (initial\<lparr>allPodcasts :=
       [\<lparr>podcast_id = 1, title = [0x61, 0x1], updated = 10, genres = []\<rparr>,
        \<lparr>podcast_id = 2, title = [0x61], updated = 10, genres = []\<rparr>],
        sortKey := ''title-desc''\<rparr>)) = [1, 2]"
  by (simp add: applyFilters_def initial_def trim_def truthy_def example_host_def
      example_compare_def ignorable_def)

section \<open>The first render\<close>

lemma step_no_user:
  assumes "\<not> user_event e"
  shows "search (step s e) = search s \<and> sortKey (step s e) = sortKey s \<and> genre (step s e) = genre s"
  using assms
  by (cases e)
    (simp_all add: step_def reset_effect_def fetchPodcasts_success_def fetchPodcasts_failure_def)

lemma run_no_user:
  assumes "list_all (\<lambda>e. \<not> user_event e) es"
  shows "search (run s es) = search s \<and> sortKey (run s es) = sortKey s \<and> genre (run s es) = genre s"
  using assms
proof (induction es arbitrary: s)
  case Nil
  then show ?case by simp
next
  case (Cons e es)
  then have "\<not> user_event e" and "list_all (\<lambda>e. \<not> user_event e) es" by simp_all
  with Cons.IH [of "step s e"] step_no_user [of e s] show ?case by simp
qed

lemma run_append: "run s (es @ fs) = run (run s es) fs"
  by (induction es arbitrary: s) simp_all

lemma applyFilters_first_render:
  assumes "search s = []" and "genre s = All" and "sortKey s = ''date-desc''"
  shows "applyFilters h s = js_sort (\<lambda>a b. updated b - updated a) (allPodcasts s)"
  using assms by (simp add: applyFilters_def trim_def truthy_def)

lemma sorted_wrt_js_slice: "sorted_wrt P xs \<Longrightarrow> sorted_wrt P (js_slice xs a b)"
  by (simp add: js_slice_def Let_def sorted_wrt_take sorted_wrt_drop)

text \<open>
  Claim C10. The initial sort key is \<open>date-desc\<close>, not \<open>default\<close>: as long as only the
  fetch and the window have acted, whatever dataset was fetched is shown ordered by
  timestamp, newest first, and not in the order of the dataset.
\<close>

theorem initial_sort_date_desc:
  assumes "list_all (\<lambda>e. \<not> user_event e) es"
  shows "sortKey initial = ''date-desc''
         \<and> sortKey (run (mount w) es) = ''date-desc''
         \<and> allPodcasts (run (mount w) (es @ [Fetched D])) = D
         \<and> applyFilters h (run (mount w) es)
             = js_sort (\<lambda>a b. updated b - updated a) (allPodcasts (run (mount w) es))
         \<and> mset (applyFilters h (run (mount w) es)) = mset (allPodcasts (run (mount w) es))
         \<and> sorted_wrt (\<lambda>a b. updated b \<le> updated a) (applyFilters h (run (mount w) es))
         \<and> sorted_wrt (\<lambda>a b. updated b \<le> updated a) (podcasts (derive h (run (mount w) es)))"
proof -
  let ?s = "run (mount w) es"
  have q: "search ?s = [] \<and> sortKey ?s = ''date-desc'' \<and> genre ?s = All"
    using run_no_user [OF assms, of "mount w"] by (simp add: mount_def initial_def)
  then have eq: "applyFilters h ?s = js_sort (\<lambda>a b. updated b - updated a) (allPodcasts ?s)"
    by (simp add: applyFilters_first_render)
  have srt: "sorted_wrt (\<lambda>a b. updated b \<le> updated a) (applyFilters h ?s)"
    unfolding eq by (rule sorted_date_desc)
  have "podcasts (derive h ?s) = js_slice (applyFilters h ?s)
          (js_times (js_pred (currentPage (derive h ?s))) (pageSize ?s))
          (js_times (currentPage (derive h ?s)) (pageSize ?s))"
    by (simp add: derive_def Let_def)
  then have pg: "sorted_wrt (\<lambda>a b. updated b \<le> updated a) (podcasts (derive h ?s))"
    using srt by (simp only: sorted_wrt_js_slice)
  have f: "allPodcasts (run (mount w) (es @ [Fetched D])) = D"
    by (simp add: run_append step_def reset_effect_def fetchPodcasts_success_def)
  have i: "sortKey initial = ''date-desc''" by (simp add: initial_def)
  from q eq srt pg f i show ?thesis by (simp add: mset_js_sort)
qed

theorem initial_sort_date_desc_witness:
  "list_all (\<lambda>e. \<not> user_event e)
     [Fetched [\<lparr>podcast_id = 1, title = js ''a'', updated = 10, genres = []\<rparr>,
               \<lparr>podcast_id = 2, title = js ''b'', updated = 50, genres = []\<rparr>]]
   \<and> sortKey (run (mount 1280)
       [Fetched [\<lparr>podcast_id = 1, title = js ''a'', updated = 10, genres = []\<rparr>,
                 \<lparr>podcast_id = 2, title = js ''b'', updated = 50, genres = []\<rparr>]]) = ''date-desc''
   \<and> map podcast_id (allPodcasts (run (mount 1280)
       [Fetched [\<lparr>podcast_id = 1, title = js ''a'', updated = 10, genres = []\<rparr>,
                 \<lparr>podcast_id = 2, title = js ''b'', updated = 50, genres = []\<rparr>]])) = [1, 2]
   \<and> map podcast_id (podcasts (derive example_host (run (mount 1280)
       [Fetched [\<lparr>podcast_id = 1, title = js ''a'', updated = 10, genres = []\<rparr>,
                 \<lparr>podcast_id = 2, title = js ''b'', updated = 50, genres = []\<rparr>]]))) = [2, 1]"
proof -
  let ?es = "[Fetched [\<lparr>podcast_id = 1, title = js ''a'', updated = 10, genres = []\<rparr>,
                       \<lparr>podcast_id = 2, title = js ''b'', updated = 50, genres = []\<rparr>]]"
  have h: "list_all (\<lambda>e. \<not> user_event e) ?es" by simp
  have k: "sortKey (run (mount 1280) ?es) = ''date-desc''"
    using initial_sort_date_desc [OF h, of 1280 "[]" example_host] by blast
  have r: "map podcast_id (allPodcasts (run (mount 1280) ?es)) = [1, 2]" by code_simp
  have v: "map podcast_id (podcasts (derive example_host (run (mount 1280) ?es))) = [2, 1]"
    by code_simp
  from h k r v show ?thesis by blast
qed

section \<open>The search filter\<close>

lemma str_includes_sublist: "str_includes t q = sublist q t"
  by (induction t) (simp_all add: sublist_Cons_right)

lemma sublist_map_iff:
  "sublist (map f q) (map f t) = (\<exists>u. sublist u t \<and> map f u = map f q)"
proof
  assume "sublist (map f q) (map f t)"
  then obtain ps ss where "map f t = ps @ map f q @ ss" by (auto simp: sublist_def)
  then obtain t1 t2 t3 where "t = t1 @ t2 @ t3" and "map f t2 = map f q"
    by (metis map_eq_append_conv)
  then show "\<exists>u. sublist u t \<and> map f u = map f q" by (auto simp: sublist_def)
next
  assume "\<exists>u. sublist u t \<and> map f u = map f q"
  then obtain u ps ss where "t = ps @ u @ ss" and "map f u = map f q"
    by (auto simp: sublist_def)
  then have "map f t = map f ps @ map f q @ map f ss" by simp
  then show "sublist (map f q) (map f t)" unfolding sublist_def by blast
qed

lemma trim_empty_iff: "(trim s = []) = (\<forall>c\<in>set s. is_space c)"
proof -
  have "(trim s = []) = (dropWhile is_space (rev (dropWhile is_space s)) = [])"
    by (simp only: trim_def rev_is_Nil_conv)
  also have "\<dots> = (\<forall>c\<in>set (dropWhile is_space s). is_space c)"
    by (simp only: dropWhile_eq_Nil_conv set_rev)
  also have "\<dots> = (dropWhile is_space s = [])"
  proof
    assume all: "\<forall>c\<in>set (dropWhile is_space s). is_space c"
    show "dropWhile is_space s = []"
    proof (rule ccontr)
      assume ne: "dropWhile is_space s \<noteq> []"
      then have "\<not> is_space (hd (dropWhile is_space s))" by (rule hd_dropWhile)
      moreover have "hd (dropWhile is_space s) \<in> set (dropWhile is_space s)"
        using ne by (rule hd_in_set)
      ultimately show False using all by blast
    qed
  next
    assume "dropWhile is_space s = []"
    then show "\<forall>c\<in>set (dropWhile is_space s). is_space c" by (simp only: set_simps ball_empty)
  qed
  also have "\<dots> = (\<forall>c\<in>set s. is_space c)"
    by (simp add: dropWhile_eq_Nil_conv)
  finally show ?thesis .
qed


lemma search_stage:
  assumes "genre s = All"
  shows "applyFilters h (s\<lparr>sortKey := ''default''\<rparr>) =
         (if \<forall>c\<in>set (search s). is_space c then allPodcasts s
          else filter (\<lambda>p. sublist (toLowerCase h (search s)) (toLowerCase h (title p)))
                 (allPodcasts s))"
  using assms
  by (simp add: applyFilters_def Let_def truthy_def trim_empty_iff str_includes_sublist)

lemma mset_applyFilters:
  "mset (applyFilters h s) = mset (applyFilters h (s\<lparr>sortKey := ''default''\<rparr>))"
  by (simp add: applyFilters_def Let_def mset_js_sort split: genre_choice.splits)

lemma applyFilters_default:
  assumes "sortKey s = ''default''"
  shows "applyFilters h s = applyFilters h (s\<lparr>sortKey := ''default''\<rparr>)"
  using assms by (simp add: applyFilters_def Let_def split: genre_choice.splits)

text \<open>
  Claim C6, as the code has it. With no genre filter: when the search text is empty or
  white space only, the result holds the whole dataset. Otherwise, provided
  \<^verbatim>\<open>toLowerCase\<close> lowers the search text and the titles code unit by code unit (by
  some map \<open>f\<close> of code units, as it does for ASCII text), the result holds exactly the
  shows whose title has a part that equals the search text up to letter case. Without
  a sort key the result is that list itself, in the order of the dataset.
\<close>

theorem search_filter_spec:
  assumes "genre s = All"
  shows "((\<forall>c\<in>set (search s). is_space c) \<longrightarrow>
            mset (applyFilters h s) = mset (allPodcasts s)
            \<and> (sortKey s = ''default'' \<longrightarrow> applyFilters h s = allPodcasts s))
         \<and> ((\<exists>c\<in>set (search s). \<not> is_space c)
              \<and> toLowerCase h (search s) = map f (search s)
              \<and> (\<forall>p\<in>set (allPodcasts s). toLowerCase h (title p) = map f (title p)) \<longrightarrow>
              mset (applyFilters h s)
                = mset (filter (\<lambda>p. \<exists>u. sublist u (title p) \<and> map f u = map f (search s))
                          (allPodcasts s))
              \<and> (sortKey s = ''default'' \<longrightarrow>
                   applyFilters h s
                    = filter (\<lambda>p. \<exists>u. sublist u (title p) \<and> map f u = map f (search s))
                        (allPodcasts s)))"
proof -
  let ?hit = "\<lambda>p. \<exists>u. sublist u (title p) \<and> map f u = map f (search s)"
  have blank: "mset (applyFilters h s) = mset (allPodcasts s)
               \<and> (sortKey s = ''default'' \<longrightarrow> applyFilters h s = allPodcasts s)"
    if b: "\<forall>c\<in>set (search s). is_space c"
  proof -
    have pre: "applyFilters h (s\<lparr>sortKey := ''default''\<rparr>) = allPodcasts s"
      using search_stage [OF assms, of h] b by simp
    have "mset (applyFilters h s) = mset (allPodcasts s)"
      using mset_applyFilters [of h s] pre by simp
    moreover have "applyFilters h s = allPodcasts s" if "sortKey s = ''default''"
      using applyFilters_default [OF that, of h] pre by simp
    ultimately show ?thesis by blast
  qed
  have nonblank: "mset (applyFilters h s) = mset (filter ?hit (allPodcasts s))
              \<and> (sortKey s = ''default'' \<longrightarrow> applyFilters h s = filter ?hit (allPodcasts s))"
    if n: "\<not> (\<forall>c\<in>set (search s). is_space c)"
      and q: "toLowerCase h (search s) = map f (search s)"
      and t: "\<forall>p\<in>set (allPodcasts s). toLowerCase h (title p) = map f (title p)"
  proof -
    have "applyFilters h (s\<lparr>sortKey := ''default''\<rparr>)
          = filter (\<lambda>p. sublist (toLowerCase h (search s)) (toLowerCase h (title p))) (allPodcasts s)"
      using search_stage [OF assms, of h] n by (simp only: if_False)
    also have "\<dots> = filter ?hit (allPodcasts s)"
    proof (rule filter_cong [OF refl])
      fix p
      assume "p \<in> set (allPodcasts s)"
      with t have "toLowerCase h (title p) = map f (title p)" by blast
      with q show "sublist (toLowerCase h (search s)) (toLowerCase h (title p)) = ?hit p"
        by (simp only: sublist_map_iff)
    qed
    finally have pre: "applyFilters h (s\<lparr>sortKey := ''default''\<rparr>) = filter ?hit (allPodcasts s)" .
    have "mset (applyFilters h s) = mset (filter ?hit (allPodcasts s))"
      using mset_applyFilters [of h s] pre by simp
    moreover have "applyFilters h s = filter ?hit (allPodcasts s)" if "sortKey s = ''default''"
      using applyFilters_default [OF that, of h] pre by simp
    ultimately show ?thesis by blast
  qed
  from blank nonblank show ?thesis by blast
qed

theorem search_filter_spec_witness:
  "genre (initial\<lparr>allPodcasts :=
       [\<lparr>podcast_id = 1, title = js ''Hello World'', updated = 10, genres = []\<rparr>,
        \<lparr>podcast_id = 2, title = js ''Worlds apart'', updated = 50, genres = []\<rparr>,
        \<lparr>podcast_id = 3, title = js ''Other'', updated = 70, genres = []\<rparr>],
       search := js ''WORLD'', sortKey := ''default''\<rparr>) = All
   \<and> (\<exists>c\<in>set (js ''WORLD''). \<not> is_space c)
   \<and> toLowerCase example_host (js ''WORLD'') = map lower_unit (js ''WORLD'')
   \<and> applyFilters example_host (initial\<lparr>allPodcasts :=
       [\<lparr>podcast_id = 1, title = js ''Hello World'', updated = 10, genres = []\<rparr>,
        \<lparr>podcast_id = 2, title = js ''Worlds apart'', updated = 50, genres = []\<rparr>,
        \<lparr>podcast_id = 3, title = js ''Other'', updated = 70, genres = []\<rparr>],
       search := js ''WORLD'', sortKey := ''default''\<rparr>)
     = filter (\<lambda>p. \<exists>u. sublist u (title p) \<and> map lower_unit u = map lower_unit (js ''WORLD''))
       [\<lparr>podcast_id = 1, title = js ''Hello World'', updated = 10, genres = []\<rparr>,
        \<lparr>podcast_id = 2, title = js ''Worlds apart'', updated = 50, genres = []\<rparr>,
        \<lparr>podcast_id = 3, title = js ''Other'', updated = 70, genres = []\<rparr>]
   \<and> map podcast_id (applyFilters example_host (initial\<lparr>allPodcasts :=
       [\<lparr>podcast_id = 1, title = js ''Hello World'', updated = 10, genres = []\<rparr>,
        \<lparr>podcast_id = 2, title = js ''Worlds apart'', updated = 50, genres = []\<rparr>,
        \<lparr>podcast_id = 3, title = js ''Other'', updated = 70, genres = []\<rparr>],
       search := js ''WORLD'', sortKey := ''default''\<rparr>)) = [1, 2]
   \<and> is_space 0xA0
   \<and> map podcast_id (applyFilters example_host (initial\<lparr>allPodcasts :=
       [\<lparr>podcast_id = 1, title = js ''Hello World'', updated = 10, genres = []\<rparr>,
        \<lparr>podcast_id = 2, title = js ''Worlds apart'', updated = 50, genres = []\<rparr>,
        \<lparr>podcast_id = 3, title = js ''Other'', updated = 70, genres = []\<rparr>],
       search := [0x20, 0xA0], sortKey := ''default''\<rparr>)) = [1, 2, 3]"
proof -
  let ?D = "[\<lparr>podcast_id = 1, title = js ''Hello World'', updated = 10, genres = []\<rparr>,
             \<lparr>podcast_id = 2, title = js ''Worlds apart'', updated = 50, genres = []\<rparr>,
             \<lparr>podcast_id = 3, title = js ''Other'', updated = 70, genres = []\<rparr>]"
  let ?s = "initial\<lparr>allPodcasts := ?D, search := js ''WORLD'', sortKey := ''default''\<rparr>"
  let ?b = "initial\<lparr>allPodcasts := ?D, search := [0x20, 0xA0], sortKey := ''default''\<rparr>"
  note ev = example_host_def example_lower_def lower_unit_def cased_def js_def
  have g: "genre ?s = All" and gb: "genre ?b = All" by (simp_all add: initial_def)
  have k: "sortKey ?s = ''default''" and kb: "sortKey ?b = ''default''" by simp_all
  have n: "\<exists>c\<in>set (js ''WORLD''). \<not> is_space c" by (simp add: is_space_def js_def)
  then have n': "\<exists>c\<in>set (search ?s). \<not> is_space c" by simp
  have q: "toLowerCase example_host (js ''WORLD'') = map lower_unit (js ''WORLD'')"
    by (simp add: ev)
  then have q': "toLowerCase example_host (search ?s) = map lower_unit (search ?s)" by simp
  have t: "\<forall>p\<in>set (allPodcasts ?s). toLowerCase example_host (title p) = map lower_unit (title p)"
    by (simp add: ev)
  have sp: "is_space 0xA0" by (simp add: is_space_def)
  have b: "\<forall>c\<in>set (search ?b). is_space c" by (simp add: is_space_def)
  have "applyFilters example_host ?s
        = filter (\<lambda>p. \<exists>u. sublist u (title p) \<and> map lower_unit u = map lower_unit (search ?s))
            (allPodcasts ?s)"
    using search_filter_spec [OF g, of example_host lower_unit] n' q' t k by blast
  then have 1: "applyFilters example_host ?s
           = filter (\<lambda>p. \<exists>u. sublist u (title p) \<and> map lower_unit u = map lower_unit (js ''WORLD'')) ?D"
    by simp
  have 2: "map podcast_id (applyFilters example_host ?s) = [1, 2]"
    by (simp add: applyFilters_def initial_def trim_def truthy_def is_space_def ev)
  have "applyFilters example_host ?b = allPodcasts ?b"
    using search_filter_spec [OF gb, of example_host lower_unit] b kb by blast
  then have 3: "map podcast_id (applyFilters example_host ?b) = [1, 2, 3]" by simp
  from g n q 1 2 sp 3 show ?thesis by blast
qed

text \<open>
  Where the lower case of a letter depends on its place, the filter misses a show
  whose title holds the search text itself. The title is the Greek word made of
  omicron, delta, omicron and sigma in capitals, the search text is the capital sigma:
  the title lowers to a word that ends in the final sigma U+03C2, the search text to
  the plain sigma U+03C3, and the show is not in the result.
\<close>

theorem search_misses_final_sigma:
  "str_includes [0x39F, 0x394, 0x39F, 0x3A3] [0x3A3]
   \<and> \<not> is_space 0x3A3
   \<and> toLowerCase example_host [0x39F, 0x394, 0x39F, 0x3A3] = [0x3BF, 0x3B4, 0x3BF, 0x3C2]
   \<and> toLowerCase example_host [0x3A3] = [0x3C3]
   \<and> applyFilters example_host (initial\<lparr>allPodcasts :=
       [\<lparr>podcast_id = 1, title = [0x39F, 0x394, 0x39F, 0x3A3], updated = 10, genres = []\<rparr>],
       search := [0x3A3], sortKey := ''default''\<rparr>) = []"
  by (simp add: applyFilters_def initial_def trim_def truthy_def is_space_def
      example_host_def example_lower_def lower_unit_def cased_def)

section \<open>Genre labels\<close>

lemma genre_label_unknown:
  assumes "\<forall>g\<in>set genreMap. genre_id g \<noteq> i"
  shows "genre_label genreMap i = ''Unknown ('' @ String_of i @ '')''"
proof -
  have "List.find (\<lambda>g. genre_id g = i) genreMap = None"
    using assms by (simp add: find_None_iff)
  then show ?thesis by (simp add: genre_label_def)
qed

text \<open>
  Claim C9. Rendering the tags of a list of genre ids never throws and gives one tag per
  id; every id with no entry in the genre table gets the label \<open>Unknown (id)\<close>.
\<close>

theorem unknown_genre_label:
  "GenreTags genreMap (Some ids) =
     Inr (map (\<lambda>i. if \<exists>g\<in>set genreMap. genre_id g = i then genre_label genreMap i
                    else ''Unknown ('' @ String_of i @ '')'') ids)"
  by (simp add: GenreTags_def genre_label_unknown)

theorem unknown_genre_label_witness:
  "GenreTags [\<lparr>genre_id = 1, genre_title = ''Personal Growth''\<rparr>,
              \<lparr>genre_id = 2, genre_title = ''History''\<rparr>] (Some [2, 99, - 4])
   = Inr [''History'', ''Unknown (99)'', ''Unknown (-4)'']"
proof -
  have s99: "String_of 99 = ''99''" and s4: "String_of (- 4) = ''-4''" by code_simp+
  show ?thesis
    using unknown_genre_label [of "[\<lparr>genre_id = 1, genre_title = ''Personal Growth''\<rparr>,
              \<lparr>genre_id = 2, genre_title = ''History''\<rparr>]" "[2, 99, - 4]"]
    by (simp add: s99 s4 genre_label_def)
qed


section \<open>The selected season\<close>

lemma selections_in_range:
  assumes "i < length (seasons podcast)"
    and "list_all (\<lambda>v. v \<in> set (dropdown_options podcast)) vs"
  shows "selections i vs < length (seasons podcast)"
  using assms
  by (induction vs arbitrary: i) (simp_all add: onChange_def dropdown_options_def)

text \<open>
  Claim C2, as the code has it. The selected season index starts at 0 and is changed
  only by choosing an option of the dropdown, whose values are the positions of the
  season list; the component never re-clamps it. For a podcast with at least one season
  the index is therefore always a position of the list, and the season is read within
  the list: with any genres prop, the render fails only when that prop is undefined.
\<close>

theorem season_index_in_range:
  assumes "seasons podcast \<noteq> []"
    and "list_all (\<lambda>v. v \<in> set (dropdown_options podcast)) vs"
  shows "selections initial_index vs < length (seasons podcast)
         \<and> array_get (seasons podcast) (selections initial_index vs)
             = Some (seasons podcast ! selections initial_index vs)
         \<and> (PodcastDetail genreMap podcast genres_prop (selections initial_index vs) = Inl TypeError)
             = (genres_prop = None)"
proof -
  let ?i = "selections initial_index vs"
  have "initial_index < length (seasons podcast)" using assms(1) by (simp add: initial_index_def)
  then have r: "?i < length (seasons podcast)" using assms(2) by (rule selections_in_range)
  then have g: "array_get (seasons podcast) ?i = Some (seasons podcast ! ?i)"
    by (simp add: array_get_def)
  then show ?thesis using r
    by (simp add: PodcastDetail_def GenreTags_def split: option.splits)
qed

theorem season_index_in_range_witness:
  "seasons \<lparr>show_title = ''S'', show_description = ''d'', show_image = ''i'',
      seasons = [\<lparr>season_title = ''One'', season_description = ''a'', season_image = ''x'', episodes = []\<rparr>,
                 \<lparr>season_title = ''Two'', season_description = ''b'', season_image = ''y'', episodes = []\<rparr>]\<rparr> \<noteq> []
   \<and> list_all (\<lambda>v. v \<in> set (dropdown_options \<lparr>show_title = ''S'', show_description = ''d'', show_image = ''i'',
      seasons = [\<lparr>season_title = ''One'', season_description = ''a'', season_image = ''x'', episodes = []\<rparr>,
                 \<lparr>season_title = ''Two'', season_description = ''b'', season_image = ''y'', episodes = []\<rparr>]\<rparr>)) [1, 0, 1]
   \<and> selections initial_index [1, 0, 1] = 1
   \<and> 1 < length (seasons \<lparr>show_title = ''S'', show_description = ''d'', show_image = ''i'',
      seasons = [\<lparr>season_title = ''One'', season_description = ''a'', season_image = ''x'', episodes = []\<rparr>,
                 \<lparr>season_title = ''Two'', season_description = ''b'', season_image = ''y'', episodes = []\<rparr>]\<rparr>)"
proof -
  let ?p = "\<lparr>show_title = ''S'', show_description = ''d'', show_image = ''i'',
      seasons = [\<lparr>season_title = ''One'', season_description = ''a'', season_image = ''x'', episodes = []\<rparr>,
                 \<lparr>season_title = ''Two'', season_description = ''b'', season_image = ''y'', episodes = []\<rparr>]\<rparr>"
  have h: "seasons ?p \<noteq> []" by simp
  have c: "list_all (\<lambda>v. v \<in> set (dropdown_options ?p)) [1, 0, 1]"
    by (simp add: dropdown_options_def)
  have e: "selections initial_index [1, 0, 1] = 1"
    by (simp add: onChange_def)
  have "selections initial_index [1, 0, 1] < length (seasons ?p)"
    using season_index_in_range [OF h c, of "[]" None] by (rule conjunct1)
  then have "1 < length (seasons ?p)" unfolding e .
  with h c e show ?thesis by blast
qed

text \<open>
  With an empty season list the initial index 0 is already outside the list, and a
  stored index 2 is outside a list of one season: the index is used as it is and the
  render throws.
\<close>

theorem season_access_out_of_range:
  "PodcastDetail [] \<lparr>show_title = ''S'', show_description = ''d'', show_image = ''i'', seasons = []\<rparr>
      (Some []) initial_index = Inl TypeError
   \<and> PodcastDetail []
      \<lparr>show_title = ''S'', show_description = ''d'', show_image = ''i'',
        seasons = [\<lparr>season_title = ''One'', season_description = ''a'', season_image = ''x'', episodes = []\<rparr>]\<rparr>
      (Some []) 2 = Inl TypeError"
  by (simp add: PodcastDetail_def array_get_def initial_index_def)

end
